theory Spec2Isabelle
  imports Main
begin

section \<open>The architecture diagram component (src/arch_diagram.jsx)\<close>

text \<open>
  The component \<^verbatim>\<open>ArchDiagram\<close> renders the constant \<^verbatim>\<open>LAYERS\<close> and keeps two
  pieces of React state, \<^verbatim>\<open>active\<close> and \<^verbatim>\<open>hoveredLayer\<close>. The embedding follows the
  source: the layer and node objects are records, \<^verbatim>\<open>null\<close>/\<^verbatim>\<open>undefined\<close> is \<open>None\<close>,
  a template literal is a concatenation of strings, the event handlers are the state updates
  they perform, and reading a property of \<^verbatim>\<open>undefined\<close> is the error value \<open>TypeError\<close>.

  JavaScript strings are modelled as \<open>string\<close>. The only operations the component applies to
  them are equality, concatenation and \<^verbatim>\<open>toUpperCase\<close>; the two characters of the modelled
  texts that lie outside ASCII are written as their UTF-8 bytes.
\<close>

subsection \<open>Static data: lines 3 to 48\<close>

record node =
  n_id :: string
  n_label :: string
  n_lang :: string
  n_desc :: string

record layer =
  l_id :: string
  l_label :: string
  l_color :: string
  l_nodes :: "node list"

record lang_color =
  lc_bg :: string
  lc_border :: string
  lc_text :: string

definition em_dash :: string where
  \<comment> \<open>U+2014, in the description of the node \<^verbatim>\<open>syslog\<close> (line 9)\<close>
  "em_dash = [CHR 0xE2, CHR 0x80, CHR 0x94]"

definition small_triangle :: string where
  \<comment> \<open>U+25B8, the first character of the placeholder prompt (line 238)\<close>
  "small_triangle = [CHR 0xE2, CHR 0x96, CHR 0xB8]"

definition LAYERS :: "layer list" where
  "LAYERS = [
    \<lparr> l_id = ''sources'', l_label = ''DATA SOURCES'', l_color = ''#00ff9d'',
      l_nodes = [
        \<lparr> n_id = ''syslog'', n_label = ''Syslog UDP/TCP'', n_lang = ''Python'',
          n_desc = ''RFC 3164/5424 listener. Asyncio datagram endpoint '' @ em_dash @
                   '' zero-copy reads, no threads.'' \<rparr>,
        \<lparr> n_id = ''cloudtrail'', n_label = ''AWS CloudTrail'', n_lang = ''Python'',
          n_desc = ''S3 poller with watermark tracking. Gzip decompression, paginated list_objects_v2.'' \<rparr>,
        \<lparr> n_id = ''webhook'', n_label = ''Webhook / HTTP'', n_lang = ''Python'',
          n_desc = ''FastAPI receiver for EDR, SaaS, and third-party security tools pushing events.'' \<rparr>,
        \<lparr> n_id = ''goagent'', n_label = ''Go Collector Agent'', n_lang = ''Go'',
          n_desc = ''Deployed on customer infra. Goroutines + channels for high-throughput local collection, gRPC egress.'' \<rparr>
      ] \<rparr>,
    \<lparr> l_id = ''ingest'', l_label = ''INGESTION LAYER'', l_color = ''#00cfff'',
      l_nodes = [
        \<lparr> n_id = ''queue'', n_label = ''Async Event Queue'', n_lang = ''Python'',
          n_desc = ''asyncio.Queue (maxsize=10k). Backpressure-aware. Buffers bursts between sources and consumers.'' \<rparr>,
        \<lparr> n_id = ''parser'', n_label = ''Rust Log Parser'', n_lang = ''Rust'',
          n_desc = ''Parses CEF, LEEF, JSON, syslog at wire rate. Memory-safe handling of untrusted input. Emits structured records.'' \<rparr>
      ] \<rparr>,
    \<lparr> l_id = ''validation'', l_label = ''SCHEMA & VALIDATION'', l_color = ''#ff9d00'',
      l_nodes = [
        \<lparr> n_id = ''normalizer'', n_label = ''Normalizer'', n_lang = ''Python'',
          n_desc = ''Maps parsed fields to NormalizedEvent schema (ECS-inspired). Pydantic validation, timestamp normalization.'' \<rparr>,
        \<lparr> n_id = ''registry'', n_label = ''Schema Registry'', n_lang = ''Python'',
          n_desc = ''Per-source field requirements. Quarantines malformed events. Tracks field coverage over time.'' \<rparr>
      ] \<rparr>,
    \<lparr> l_id = ''sink'', l_label = ''SINK & OBSERVABILITY'', l_color = ''#ff4d8f'',
      l_nodes = [
        \<lparr> n_id = ''filesink'', n_label = ''File Sink (NDJSON)'', n_lang = ''Python'',
          n_desc = ''MVP sink: batched writes to newline-delimited JSON. Rotate to S3 or Kafka when volume justifies it.'' \<rparr>,
        \<lparr> n_id = ''monitor'', n_label = ''Pipeline Monitor'', n_lang = ''Python'',
          n_desc = ''Tracks throughput per source. Fires alerts on data gaps (default: 5min silence = ALERT). Prometheus-ready.'' \<rparr>
      ] \<rparr>
  ]"

text \<open>
  \<^verbatim>\<open>LANG_COLORS\<close> is an object literal. Its entries are kept in the order they are
  written (the order \<^verbatim>\<open>Object.entries\<close> enumerates them in), and a property read
  \<^verbatim>\<open>LANG_COLORS[k]\<close> is \<open>map_of\<close> on them: \<open>None\<close> stands for \<^verbatim>\<open>undefined\<close>.
  Properties inherited from \<^verbatim>\<open>Object.prototype\<close> are not modelled.
\<close>

definition LANG_COLORS_entries :: "(string \<times> lang_color) list" where
  "LANG_COLORS_entries = [
    (''Python'', \<lparr> lc_bg = ''#1a2a1a'', lc_border = ''#00ff9d'', lc_text = ''#00ff9d'' \<rparr>),
    (''Go'',     \<lparr> lc_bg = ''#1a1f2a'', lc_border = ''#00cfff'', lc_text = ''#00cfff'' \<rparr>),
    (''Rust'',   \<lparr> lc_bg = ''#2a1a1a'', lc_border = ''#ff6b35'', lc_text = ''#ff6b35'' \<rparr>)
  ]"

definition LANG_COLORS :: "string \<rightharpoonup> lang_color" where
  "LANG_COLORS = map_of LANG_COLORS_entries"

subsection \<open>Component state and its setters: lines 51 and 52\<close>

record ui_state =
  active :: "string option"
  hoveredLayer :: "string option"

definition initial_state :: ui_state where
  \<comment> \<open>both \<^verbatim>\<open>useState(null)\<close>\<close>
  "initial_state = \<lparr> active = None, hoveredLayer = None \<rparr>"

text \<open>
  An event handler of the component is a closure that calls one of the two setters with a
  value fixed when the handler was rendered. It is modelled as that call; \<open>dispatch\<close> runs it.
\<close>

datatype action = setActive "string option" | setHoveredLayer "string option"

fun dispatch :: "action \<Rightarrow> ui_state \<Rightarrow> ui_state" where
  "dispatch (setActive v) st = st\<lparr> active := v \<rparr>"
| "dispatch (setHoveredLayer v) st = st\<lparr> hoveredLayer := v \<rparr>"

subsection \<open>The active node: line 54\<close>

definition flatMap :: "('a \<Rightarrow> 'b list) \<Rightarrow> 'a list \<Rightarrow> 'b list" where
  \<comment> \<open>\<^verbatim>\<open>Array.prototype.flatMap\<close> with a callback that returns an array\<close>
  "flatMap f xs = concat (map f xs)"

definition allNodes :: "node list" where
  \<comment> \<open>\<^verbatim>\<open>LAYERS.flatMap(l => l.nodes)\<close>\<close>
  "allNodes = flatMap l_nodes LAYERS"

definition activeNode :: "string option \<Rightarrow> node option" where
  \<comment> \<open>\<^verbatim>\<open>.find(n => n.id === active)\<close>: a string is never strictly equal to \<^verbatim>\<open>null\<close>\<close>
  "activeNode act = find (\<lambda>n. Some (n_id n) = act) allNodes"

subsection \<open>The rendered tree: lines 56 to 262\<close>

text \<open>
  The tree that \<^verbatim>\<open>ArchDiagram\<close> returns is kept as records that hold every attribute,
  handler and text child computed from the static data or from the state. Attributes that
  are the same literal in every render (paddings, font sizes, the page header, the grid and
  scanline backgrounds) are left out.
\<close>

datatype error = TypeError

definition upper_char :: "char \<Rightarrow> char" where
  "upper_char c =
     (let k = (of_char c :: nat) in if 97 \<le> k \<and> k \<le> 122 then char_of (k - 32) else c)"

definition toUpperCase :: "string \<Rightarrow> string" where
  \<comment> \<open>\<^verbatim>\<open>String.prototype.toUpperCase\<close> on ASCII text: the language tags it is applied to\<close>
  "toUpperCase s = map upper_char s"

fun mapM :: "('a \<Rightarrow> 'e + 'b) \<Rightarrow> 'a list \<Rightarrow> 'e + 'b list" where
  \<comment> \<open>\<^verbatim>\<open>Array.prototype.map\<close> with a callback that may throw: the first throw ends the map\<close>
  "mapM f [] = Inr []"
| "mapM f (x # xs) =
     (case f x of
        Inl e \<Rightarrow> Inl e
      | Inr y \<Rightarrow> (case mapM f xs of Inl e \<Rightarrow> Inl e | Inr ys \<Rightarrow> Inr (y # ys)))"

record badge_view =
  bd_color :: string
  bd_background :: string
  bd_border :: string
  bd_text :: string

record node_view =
  nv_key :: string
  nv_onClick :: action
  nv_background :: string
  nv_border :: string
  nv_boxShadow :: string
  nv_transform :: string
  nv_labelColor :: string
  nv_label :: string
  nv_badge :: badge_view

record layer_view =
  lv_key :: string
  lv_onMouseEnter :: action
  lv_onMouseLeave :: action
  lv_border :: string
  lv_background :: string
  lv_dotBackground :: string
  lv_dotBoxShadow :: string
  lv_labelColor :: string
  lv_label :: string
  lv_ruleBackground :: string
  lv_counter :: "int \<times> int"
  lv_nodes :: "node_view list"
  lv_arrow :: bool

datatype detail_view =
    Placeholder string
  | NodeDetail (dv_label: string) (dv_badge: badge_view) (dv_desc: string)

record legend_view =
  lg_key :: string
  lg_swatch :: string
  lg_text :: string

record view =
  v_layers :: "layer_view list"
  v_detail :: detail_view
  v_legend :: "legend_view list"

definition isActiveNode :: "string option \<Rightarrow> node \<Rightarrow> bool" where
  \<comment> \<open>\<^verbatim>\<open>const isActive = active === node.id\<close>, line 149\<close>
  "isActiveNode act node = (act = Some (n_id node))"

definition renderNode :: "string option \<Rightarrow> layer \<Rightarrow> node \<Rightarrow> error + node_view" where
  \<comment> \<open>the callback of \<^verbatim>\<open>layer.nodes.map\<close>, lines 147 to 184; \<^verbatim>\<open>lc.text\<close> throws when
      \<^verbatim>\<open>lc\<close> is \<^verbatim>\<open>undefined\<close>\<close>
  "renderNode act layer node =
     (case LANG_COLORS (n_lang node) of
        None \<Rightarrow> Inl TypeError
      | Some lc \<Rightarrow>
          (let isActive = isActiveNode act node in
           Inr \<lparr> nv_key = n_id node,
                 nv_onClick = setActive (if isActive then None else Some (n_id node)),
                 nv_background =
                   (if isActive then l_color layer @ ''15'' else ''rgba(255,255,255,0.02)''),
                 nv_border =
                   ''1px solid '' @ (if isActive then l_color layer else ''rgba(255,255,255,0.08)''),
                 nv_boxShadow =
                   (if isActive then ''0 0 20px '' @ l_color layer @ ''20'' else ''none''),
                 nv_transform = (if isActive then ''translateY(-1px)'' else ''none''),
                 nv_labelColor = (if isActive then ''#fff'' else ''#b0c4d4''),
                 nv_label = n_label node,
                 nv_badge =
                   \<lparr> bd_color = lc_text lc, bd_background = lc_bg lc,
                     bd_border = ''1px solid '' @ lc_border lc @ ''40'',
                     bd_text = toUpperCase (n_lang node) \<rparr> \<rparr>))"

definition renderLayer :: "ui_state \<Rightarrow> nat \<Rightarrow> nat \<times> layer \<Rightarrow> error + layer_view" where
  \<comment> \<open>the callback of \<^verbatim>\<open>LAYERS.map((layer, li) => ...)\<close>, lines 108 to 203; \<open>len\<close> is
      \<^verbatim>\<open>LAYERS.length\<close>\<close>
  "renderLayer st len p =
     (case p of (li, layer) \<Rightarrow>
        (case mapM (renderNode (active st) layer) (l_nodes layer) of
           Inl e \<Rightarrow> Inl e
         | Inr nvs \<Rightarrow>
             Inr \<lparr> lv_key = l_id layer,
                   lv_onMouseEnter = setHoveredLayer (Some (l_id layer)),
                   lv_onMouseLeave = setHoveredLayer None,
                   lv_border =
                     ''1px solid '' @
                     (if hoveredLayer st = Some (l_id layer) then l_color layer
                      else ''rgba(255,255,255,0.06)''),
                   lv_background =
                     (if hoveredLayer st = Some (l_id layer) then l_color layer @ ''08''
                      else ''rgba(255,255,255,0.01)''),
                   lv_dotBackground = l_color layer,
                   lv_dotBoxShadow = ''0 0 10px '' @ l_color layer,
                   lv_labelColor = l_color layer,
                   lv_label = l_label layer,
                   lv_ruleBackground =
                     ''linear-gradient(90deg, '' @ l_color layer @ ''40, transparent)'',
                   lv_counter = (int li + 1, int len),
                   lv_nodes = nvs,
                   lv_arrow = (int li < int len - 1) \<rparr>))"

definition detailPanel :: "node option \<Rightarrow> error + detail_view" where
  \<comment> \<open>lines 216 to 240: \<^verbatim>\<open>activeNode ? ... : ...\<close>\<close>
  "detailPanel an =
     (case an of
        None \<Rightarrow> Inr (Placeholder (small_triangle @ '' SELECT A NODE TO INSPECT''))
      | Some n \<Rightarrow>
          (case LANG_COLORS (n_lang n) of
             None \<Rightarrow> Inl TypeError
           | Some lc \<Rightarrow>
               Inr (NodeDetail (n_label n)
                      \<lparr> bd_color = lc_text lc, bd_background = lc_bg lc,
                        bd_border = ''1px solid '' @ lc_border lc @ ''50'',
                        bd_text = toUpperCase (n_lang n) \<rparr>
                      (n_desc n))))"

definition legendEntry :: "string \<times> lang_color \<Rightarrow> legend_view" where
  \<comment> \<open>the callback of \<^verbatim>\<open>Object.entries(LANG_COLORS).map\<close>, lines 245 to 255\<close>
  "legendEntry p =
     (case p of (lang, lc) \<Rightarrow>
        \<lparr> lg_key = lang, lg_swatch = lc_border lc, lg_text = toUpperCase lang \<rparr>)"

definition ArchDiagram :: "ui_state \<Rightarrow> error + view" where
  "ArchDiagram st =
     (let an = activeNode (active st) in
      case mapM (renderLayer st (length LAYERS)) (enumerate 0 LAYERS) of
        Inl e \<Rightarrow> Inl e
      | Inr lvs \<Rightarrow>
          (case detailPanel an of
             Inl e \<Rightarrow> Inl e
           | Inr d \<Rightarrow>
               Inr \<lparr> v_layers = lvs, v_detail = d,
                     v_legend = map legendEntry LANG_COLORS_entries \<rparr>))"

subsection \<open>The two operations on the state\<close>

definition selectNode :: "ui_state \<Rightarrow> string \<Rightarrow> ui_state" where
  \<comment> \<open>the \<^verbatim>\<open>onClick\<close> of the button of node \<open>i\<close> as rendered from \<open>st\<close>, lines 149 and 153\<close>
  "selectNode st i =
     (let isActive = (active st = Some i) in
      dispatch (setActive (if isActive then None else Some i)) st)"

definition hoverLayer :: "ui_state \<Rightarrow> string option \<Rightarrow> ui_state" where
  \<comment> \<open>\<^verbatim>\<open>setHoveredLayer\<close> as the handlers of lines 112 and 113 call it\<close>
  "hoverLayer st v = dispatch (setHoveredLayer v) st"

text \<open>
  The states the component can be in: it starts in \<open>initial_state\<close>, and every event runs a
  handler found in the tree rendered from the current state.
\<close>

inductive reachable :: "ui_state \<Rightarrow> bool" where
  r_init: "reachable initial_state"
| r_click:
    "reachable st \<Longrightarrow> ArchDiagram st = Inr v \<Longrightarrow> lv \<in> set (v_layers v) \<Longrightarrow>
     nv \<in> set (lv_nodes lv) \<Longrightarrow> reachable (dispatch (nv_onClick nv) st)"
| r_enter:
    "reachable st \<Longrightarrow> ArchDiagram st = Inr v \<Longrightarrow> lv \<in> set (v_layers v) \<Longrightarrow>
     reachable (dispatch (lv_onMouseEnter lv) st)"
| r_leave:
    "reachable st \<Longrightarrow> ArchDiagram st = Inr v \<Longrightarrow> lv \<in> set (v_layers v) \<Longrightarrow>
     reachable (dispatch (lv_onMouseLeave lv) st)"

subsection \<open>The two stylings of a node button and of a layer box\<close>

text \<open>
  The style of a node button has five attributes that depend on \<^verbatim>\<open>isActive\<close> (lines 155,
  156, 162, 163 and 167). \<open>emphasizedNode\<close> collects their values in the \<^verbatim>\<open>isActive\<close>
  branch, \<open>plainNode\<close> their values in the other one. Likewise the style of a layer box has
  two attributes that depend on \<^verbatim>\<open>hoveredLayer === layer.id\<close> (lines 115 and 119).
\<close>

definition emphasizedNode :: "layer \<Rightarrow> node_view \<Rightarrow> bool" where
  "emphasizedNode layer nv \<longleftrightarrow>
     nv_background nv = l_color layer @ ''15'' \<and>
     nv_border nv = ''1px solid '' @ l_color layer \<and>
     nv_boxShadow nv = ''0 0 20px '' @ l_color layer @ ''20'' \<and>
     nv_transform nv = ''translateY(-1px)'' \<and>
     nv_labelColor nv = ''#fff''"

definition plainNode :: "node_view \<Rightarrow> bool" where
  "plainNode nv \<longleftrightarrow>
     nv_background nv = ''rgba(255,255,255,0.02)'' \<and>
     nv_border nv = ''1px solid rgba(255,255,255,0.08)'' \<and>
     nv_boxShadow nv = ''none'' \<and>
     nv_transform nv = ''none'' \<and>
     nv_labelColor nv = ''#b0c4d4''"

definition emphasizedLayer :: "layer \<Rightarrow> layer_view \<Rightarrow> bool" where
  "emphasizedLayer layer lv \<longleftrightarrow>
     lv_border lv = ''1px solid '' @ l_color layer \<and>
     lv_background lv = l_color layer @ ''08''"

definition plainLayer :: "layer_view \<Rightarrow> bool" where
  "plainLayer lv \<longleftrightarrow>
     lv_border lv = ''1px solid rgba(255,255,255,0.06)'' \<and>
     lv_background lv = ''rgba(255,255,255,0.01)''"

section \<open>Auxiliary facts\<close>

subsection \<open>Maps that may throw\<close>

lemma mapM_Inr_iff: "mapM f xs = Inr ys \<longleftrightarrow> list_all2 (\<lambda>x y. f x = Inr y) xs ys"
proof (induction xs arbitrary: ys)
  case Nil
  show ?case by auto
next
  case (Cons x xs)
  show ?case
    by (auto simp: list_all2_Cons1 Cons.IH [symmetric] split: sum.splits)
qed

lemma mapM_total:
  assumes "\<And>x. x \<in> set xs \<Longrightarrow> \<exists>y. f x = Inr y"
  shows "\<exists>ys. mapM f xs = Inr ys"
  using assms
proof (induction xs)
  case Nil
  show ?case by simp
next
  case (Cons x xs)
  from Cons.prems obtain y where y: "f x = Inr y" by auto
  from Cons obtain ys where "mapM f xs = Inr ys" by auto
  with y show ?case by simp
qed

subsection \<open>The static data\<close>

lemma allNodes_ids:
  "map n_id allNodes =
     [''syslog'', ''cloudtrail'', ''webhook'', ''goagent'', ''queue'',
      ''parser'', ''normalizer'', ''registry'', ''filesink'', ''monitor'']"
  by (simp add: allNodes_def flatMap_def LAYERS_def)

lemma allNodes_langs:
  "map n_lang allNodes =
     [''Python'', ''Python'', ''Python'', ''Go'', ''Python'',
      ''Rust'', ''Python'', ''Python'', ''Python'', ''Python'']"
  by (simp add: allNodes_def flatMap_def LAYERS_def)

lemma distinct_ids: "distinct (map n_id allNodes)"
  unfolding allNodes_ids by simp

lemma langs_styled: "n \<in> set allNodes \<Longrightarrow> \<exists>lc. LANG_COLORS (n_lang n) = Some lc"
proof -
  assume "n \<in> set allNodes"
  then have "n_lang n \<in> set (map n_lang allNodes)" by simp
  then have "n_lang n \<in> {''Python'', ''Go'', ''Rust''}"
    unfolding allNodes_langs by auto
  then show ?thesis
    by (auto simp: LANG_COLORS_def LANG_COLORS_entries_def)
qed

lemma layer_nodes_allNodes: "layer \<in> set LAYERS \<Longrightarrow> set (l_nodes layer) \<subseteq> set allNodes"
  by (auto simp: allNodes_def flatMap_def)

subsection \<open>Rendering a node button\<close>

lemma renderNode_Inr:
  "n \<in> set allNodes \<Longrightarrow> \<exists>nv. renderNode act layer n = Inr nv"
  using langs_styled [of n] by (auto simp: renderNode_def Let_def)

lemma renderNode_active:
  assumes "renderNode act layer n = Inr nv" and "act = Some (n_id n)"
  shows "nv_onClick nv = setActive None"
    and "nv_background nv = l_color layer @ ''15''"
    and "nv_border nv = ''1px solid '' @ l_color layer"
    and "nv_boxShadow nv = ''0 0 20px '' @ l_color layer @ ''20''"
    and "nv_transform nv = ''translateY(-1px)''"
    and "nv_labelColor nv = ''#fff''"
  using assms by (auto simp: renderNode_def isActiveNode_def split: option.splits)

lemma renderNode_inactive:
  assumes "renderNode act layer n = Inr nv" and "act \<noteq> Some (n_id n)"
  shows "nv_onClick nv = setActive (Some (n_id n))"
    and "nv_background nv = ''rgba(255,255,255,0.02)''"
    and "nv_border nv = ''1px solid rgba(255,255,255,0.08)''"
    and "nv_boxShadow nv = ''none''"
    and "nv_transform nv = ''none''"
    and "nv_labelColor nv = ''#b0c4d4''"
  using assms by (auto simp: renderNode_def isActiveNode_def split: option.splits)

lemma renderNode_fields:
  assumes "renderNode act layer n = Inr nv"
  shows "nv_key nv = n_id n"
    and "nv_label nv = n_label n"
    and "bd_text (nv_badge nv) = toUpperCase (n_lang n)"
    and "\<exists>lc. LANG_COLORS (n_lang n) = Some lc \<and> bd_color (nv_badge nv) = lc_text lc \<and>
           bd_background (nv_badge nv) = lc_bg lc \<and>
           bd_border (nv_badge nv) = ''1px solid '' @ lc_border lc @ ''40''"
  using assms by (auto simp: renderNode_def Let_def split: option.splits)

lemma renderNode_emphasized:
  assumes "renderNode act layer n = Inr nv"
  shows "emphasizedNode layer nv \<longleftrightarrow> act = Some (n_id n)"
proof (cases "act = Some (n_id n)")
  case True
  with renderNode_active [OF assms True] show ?thesis by (simp add: emphasizedNode_def)
next
  case False
  with renderNode_inactive(5) [OF assms False] show ?thesis by (simp add: emphasizedNode_def)
qed

lemma renderNode_plain:
  assumes "renderNode act layer n = Inr nv"
  shows "plainNode nv \<longleftrightarrow> act \<noteq> Some (n_id n)"
proof (cases "act = Some (n_id n)")
  case True
  with renderNode_active(5) [OF assms True] show ?thesis by (simp add: plainNode_def)
next
  case False
  with renderNode_inactive [OF assms False] show ?thesis by (simp add: plainNode_def)
qed

subsection \<open>Rendering a layer box\<close>

lemma plain_background_neq: "''rgba(255,255,255,0.01)'' \<noteq> c @ ''08''"
proof
  assume "''rgba(255,255,255,0.01)'' = c @ ''08''"
  then have "last ''rgba(255,255,255,0.01)'' = last (c @ ''08'')" by simp
  then show False by simp
qed

lemma renderLayer_Inr:
  assumes "layer \<in> set LAYERS"
  shows "\<exists>lv. renderLayer st len (li, layer) = Inr lv"
proof -
  have "\<exists>nvs. mapM (renderNode (active st) layer) (l_nodes layer) = Inr nvs"
    using layer_nodes_allNodes [OF assms] by (intro mapM_total renderNode_Inr) auto
  then show ?thesis by (auto simp: renderLayer_def)
qed

lemma renderLayer_fields:
  assumes "renderLayer st len (li, layer) = Inr lv"
  shows "lv_key lv = l_id layer"
    and "lv_onMouseEnter lv = setHoveredLayer (Some (l_id layer))"
    and "lv_onMouseLeave lv = setHoveredLayer None"
    and "lv_label lv = l_label layer"
    and "lv_arrow lv \<longleftrightarrow> int li < int len - 1"
    and "mapM (renderNode (active st) layer) (l_nodes layer) = Inr (lv_nodes lv)"
  using assms by (auto simp: renderLayer_def split: sum.splits)

lemma renderLayer_nodes:
  assumes "renderLayer st len (li, layer) = Inr lv"
  shows "list_all2 (\<lambda>n nv. renderNode (active st) layer n = Inr nv) (l_nodes layer) (lv_nodes lv)"
  using renderLayer_fields(6) [OF assms] by (simp add: mapM_Inr_iff)

lemma renderLayer_hovered:
  assumes "renderLayer st len (li, layer) = Inr lv" and "hoveredLayer st = Some (l_id layer)"
  shows "lv_border lv = ''1px solid '' @ l_color layer"
    and "lv_background lv = l_color layer @ ''08''"
  using assms by (auto simp: renderLayer_def split: sum.splits)

lemma renderLayer_not_hovered:
  assumes "renderLayer st len (li, layer) = Inr lv" and "hoveredLayer st \<noteq> Some (l_id layer)"
  shows "lv_border lv = ''1px solid rgba(255,255,255,0.06)''"
    and "lv_background lv = ''rgba(255,255,255,0.01)''"
  using assms by (auto simp: renderLayer_def split: sum.splits)

lemma renderLayer_emphasized:
  assumes "renderLayer st len (li, layer) = Inr lv"
  shows "emphasizedLayer layer lv \<longleftrightarrow> hoveredLayer st = Some (l_id layer)"
proof (cases "hoveredLayer st = Some (l_id layer)")
  case True
  with renderLayer_hovered [OF assms True] show ?thesis by (simp add: emphasizedLayer_def)
next
  case False
  with renderLayer_not_hovered(2) [OF assms False] plain_background_neq [of "l_color layer"]
  show ?thesis by (simp add: emphasizedLayer_def)
qed

lemma renderLayer_plain:
  assumes "renderLayer st len (li, layer) = Inr lv"
  shows "plainLayer lv \<longleftrightarrow> hoveredLayer st \<noteq> Some (l_id layer)"
proof (cases "hoveredLayer st = Some (l_id layer)")
  case True
  with renderLayer_hovered(2) [OF assms True] plain_background_neq [of "l_color layer"]
  show ?thesis by (simp add: plainLayer_def)
next
  case False
  with renderLayer_not_hovered [OF assms False] show ?thesis by (simp add: plainLayer_def)
qed

subsection \<open>The whole tree, and the states the component reaches\<close>

lemma activeNode_in_allNodes:
  "activeNode act = Some n \<Longrightarrow> n \<in> set allNodes \<and> act = Some (n_id n)"
  by (auto simp: activeNode_def find_Some_iff)

lemma activeNode_unique:
  assumes "n \<in> set allNodes"
  shows "activeNode (Some (n_id n)) = Some n"
proof -
  have "find (\<lambda>m. Some (n_id m) = Some (n_id n)) allNodes \<noteq> None"
    using assms by (auto simp: find_None_iff)
  then obtain m where m: "activeNode (Some (n_id n)) = Some m"
    by (auto simp: activeNode_def)
  from activeNode_in_allNodes [OF m] have "m \<in> set allNodes" and "n_id m = n_id n" by auto
  with assms distinct_ids have "m = n"
    by (meson distinct_map inj_onD)
  with m show ?thesis by simp
qed

lemma detailPanel_Inr: "\<exists>d. detailPanel (activeNode act) = Inr d"
proof (cases "activeNode act")
  case None
  then show ?thesis by (simp add: detailPanel_def)
next
  case (Some n)
  with activeNode_in_allNodes [of act n] langs_styled [of n] show ?thesis
    by (auto simp: detailPanel_def)
qed

lemma ArchDiagram_Inr: "\<exists>v. ArchDiagram st = Inr v"
proof -
  have "\<exists>lvs. mapM (renderLayer st (length LAYERS)) (enumerate 0 LAYERS) = Inr lvs"
  proof (rule mapM_total)
    fix p assume "p \<in> set (enumerate 0 LAYERS)"
    then have "fst p < length LAYERS" and "LAYERS ! fst p = snd p"
      by (auto simp: in_set_enumerate_eq)
    with nth_mem [of "fst p" LAYERS] have "snd p \<in> set LAYERS" by simp
    from renderLayer_Inr [OF this, of st "length LAYERS" "fst p"]
    show "\<exists>y. renderLayer st (length LAYERS) p = Inr y" by simp
  qed
  moreover note detailPanel_Inr [of "active st"]
  ultimately show ?thesis by (auto simp: ArchDiagram_def)
qed

lemma ArchDiagram_fields:
  assumes "ArchDiagram st = Inr v"
  shows "mapM (renderLayer st (length LAYERS)) (enumerate 0 LAYERS) = Inr (v_layers v)"
    and "detailPanel (activeNode (active st)) = Inr (v_detail v)"
    and "v_legend v = map legendEntry LANG_COLORS_entries"
  using assms by (auto simp: ArchDiagram_def split: sum.splits)

lemma ArchDiagram_length:
  assumes "ArchDiagram st = Inr v"
  shows "length (v_layers v) = length LAYERS"
  using ArchDiagram_fields(1) [OF assms] by (auto simp: mapM_Inr_iff dest: list_all2_lengthD)

lemma ArchDiagram_layer_nth:
  assumes "ArchDiagram st = Inr v" and "i < length LAYERS"
  shows "renderLayer st (length LAYERS) (i, LAYERS ! i) = Inr (v_layers v ! i)"
proof -
  have la: "list_all2 (\<lambda>p lv. renderLayer st (length LAYERS) p = Inr lv)
              (enumerate 0 LAYERS) (v_layers v)"
    using ArchDiagram_fields(1) [OF assms(1)] by (simp add: mapM_Inr_iff)
  from list_all2_nthD [OF la, of i] assms(2) show ?thesis
    by (simp add: nth_enumerate_eq)
qed

lemma layer_length_nodes:
  assumes "ArchDiagram st = Inr v" and "i < length LAYERS"
  shows "length (lv_nodes (v_layers v ! i)) = length (l_nodes (LAYERS ! i))"
  using renderLayer_nodes [OF ArchDiagram_layer_nth [OF assms]]
  by (auto dest: list_all2_lengthD)

lemma ArchDiagram_node_nth:
  assumes "ArchDiagram st = Inr v" and "i < length LAYERS"
    and "j < length (l_nodes (LAYERS ! i))"
  shows "renderNode (active st) (LAYERS ! i) (l_nodes (LAYERS ! i) ! j) =
           Inr (lv_nodes (v_layers v ! i) ! j)"
  using list_all2_nthD [OF renderLayer_nodes [OF ArchDiagram_layer_nth [OF assms(1,2)]] assms(3)] .

lemma rendered_node_origin:
  assumes "ArchDiagram st = Inr v" and "lv \<in> set (v_layers v)" and "nv \<in> set (lv_nodes lv)"
  obtains layer n where "layer \<in> set LAYERS" and "n \<in> set (l_nodes layer)"
    and "renderNode (active st) layer n = Inr nv"
proof -
  from assms(2) obtain i where i: "i < length (v_layers v)" "lv = v_layers v ! i"
    by (auto simp: in_set_conv_nth)
  then have iL: "i < length LAYERS" using ArchDiagram_length [OF assms(1)] by simp
  from assms(3) i obtain j where j: "j < length (lv_nodes (v_layers v ! i))"
      "nv = lv_nodes (v_layers v ! i) ! j"
    by (auto simp: in_set_conv_nth)
  then have jL: "j < length (l_nodes (LAYERS ! i))"
    using layer_length_nodes [OF assms(1) iL] by simp
  from ArchDiagram_node_nth [OF assms(1) iL jL] j
  have r: "renderNode (active st) (LAYERS ! i) (l_nodes (LAYERS ! i) ! j) = Inr nv" by simp
  have "LAYERS ! i \<in> set LAYERS" using iL by simp
  moreover have "l_nodes (LAYERS ! i) ! j \<in> set (l_nodes (LAYERS ! i))" using jL by simp
  ultimately show thesis using r by (rule that)
qed

lemma rendered_layer_origin:
  assumes "ArchDiagram st = Inr v" and "lv \<in> set (v_layers v)"
  obtains i where "i < length LAYERS"
    and "renderLayer st (length LAYERS) (i, LAYERS ! i) = Inr lv"
proof -
  from assms(2) obtain i where i: "i < length (v_layers v)" "lv = v_layers v ! i"
    by (auto simp: in_set_conv_nth)
  then have iL: "i < length LAYERS" using ArchDiagram_length [OF assms(1)] by simp
  from ArchDiagram_layer_nth [OF assms(1) iL] i iL that show thesis by simp
qed

lemma click_is_selectNode:
  assumes "ArchDiagram st = Inr v" and "lv \<in> set (v_layers v)" and "nv \<in> set (lv_nodes lv)"
  shows "dispatch (nv_onClick nv) st = selectNode st (nv_key nv)"
proof -
  from assms obtain layer n where r: "renderNode (active st) layer n = Inr nv"
    by (rule rendered_node_origin)
  show ?thesis
  proof (cases "active st = Some (n_id n)")
    case True
    with renderNode_active(1) [OF r True] renderNode_fields(1) [OF r] show ?thesis
      by (simp add: selectNode_def)
  next
    case False
    with renderNode_inactive(1) [OF r False] renderNode_fields(1) [OF r] show ?thesis
      by (simp add: selectNode_def)
  qed
qed

lemma node_has_button:
  assumes "n \<in> set allNodes"
  obtains v lv nv where "ArchDiagram st = Inr v" and "lv \<in> set (v_layers v)"
    and "nv \<in> set (lv_nodes lv)" and "nv_key nv = n_id n"
proof -
  obtain v where v: "ArchDiagram st = Inr v" using ArchDiagram_Inr by blast
  from assms obtain layer where "layer \<in> set LAYERS" and nl: "n \<in> set (l_nodes layer)"
    by (auto simp: allNodes_def flatMap_def)
  then obtain i where i: "i < length LAYERS" "layer = LAYERS ! i"
    by (auto simp: in_set_conv_nth)
  from nl i obtain j where j: "j < length (l_nodes (LAYERS ! i))" "n = l_nodes (LAYERS ! i) ! j"
    by (auto simp: in_set_conv_nth)
  let ?lv = "v_layers v ! i" and ?nv = "lv_nodes (v_layers v ! i) ! j"
  have "?lv \<in> set (v_layers v)"
    using i ArchDiagram_length [OF v] by simp
  moreover have "?nv \<in> set (lv_nodes ?lv)"
    using j layer_length_nodes [OF v i(1)] by simp
  moreover have "nv_key ?nv = n_id n"
    using renderNode_fields(1) [OF ArchDiagram_node_nth [OF v i(1) j(1)]] j by simp
  ultimately show thesis using v that by blast
qed

lemma reachable_selectNode:
  assumes "reachable st" and "n \<in> set allNodes"
  shows "reachable (selectNode st (n_id n))"
proof -
  from assms(2) obtain v lv nv where v: "ArchDiagram st = Inr v" "lv \<in> set (v_layers v)"
    "nv \<in> set (lv_nodes lv)" and k: "nv_key nv = n_id n"
    by (rule node_has_button)
  from r_click [OF assms(1) v] click_is_selectNode [OF v] k show ?thesis by simp
qed

lemma reachable_active:
  assumes "reachable st"
  shows "active st = None \<or> (\<exists>n\<in>set allNodes. active st = Some (n_id n))"
  using assms
proof (induction rule: reachable.induct)
  case r_init
  show ?case by (simp add: initial_state_def)
next
  case (r_click st v lv nv)
  from r_click(2-4) obtain layer n where ln: "layer \<in> set LAYERS" "n \<in> set (l_nodes layer)"
    and r: "renderNode (active st) layer n = Inr nv"
    by (rule rendered_node_origin)
  from ln layer_nodes_allNodes have n: "n \<in> set allNodes" by blast
  show ?case
  proof (cases "active st = Some (n_id n)")
    case True
    with renderNode_active(1) [OF r True] show ?thesis by simp
  next
    case False
    with renderNode_inactive(1) [OF r False] n show ?thesis by auto
  qed
next
  case (r_enter st v lv)
  from r_enter(2,3) obtain i where "renderLayer st (length LAYERS) (i, LAYERS ! i) = Inr lv"
    by (rule rendered_layer_origin)
  from renderLayer_fields(2) [OF this] r_enter.IH show ?case by simp
next
  case (r_leave st v lv)
  from r_leave(2,3) obtain i where "renderLayer st (length LAYERS) (i, LAYERS ! i) = Inr lv"
    by (rule rendered_layer_origin)
  from renderLayer_fields(3) [OF this] r_leave.IH show ?case by simp
qed

subsection \<open>Positions in the static data\<close>

lemma LAYERS_length: "length LAYERS = 4"
  by (simp add: LAYERS_def)

lemma parser_position:
  "length (l_nodes (LAYERS ! 1)) = 2"
  "n_id (l_nodes (LAYERS ! 1) ! 1) = ''parser''"
  "l_color (LAYERS ! 1) = ''#00cfff''"
  "l_id (LAYERS ! 1) = ''ingest''"
  by (simp_all add: LAYERS_def)

lemma parser_node:
  "allNodes ! 5 =
     \<lparr> n_id = ''parser'', n_label = ''Rust Log Parser'', n_lang = ''Rust'',
       n_desc = ''Parses CEF, LEEF, JSON, syslog at wire rate. Memory-safe handling of untrusted input. Emits structured records.'' \<rparr>"
  "allNodes ! 5 \<in> set allNodes"
  "l_nodes (LAYERS ! 1) ! 1 = allNodes ! 5"
  by (simp_all add: allNodes_def flatMap_def LAYERS_def)

lemma distinct_filter_le1:
  "distinct (map f xs) \<Longrightarrow> length (filter (\<lambda>x. a = Some (f x)) xs) \<le> 1"
  by (induction xs) (auto simp: filter_empty_conv)

lemma at_most_one_active: "length (filter (isActiveNode act) allNodes) \<le> 1"
  using distinct_filter_le1 [OF distinct_ids, of act]
  by (simp add: isActiveNode_def [abs_def])

lemma activeNode_None: "activeNode None = None"
  by (simp add: activeNode_def find_None_iff)

lemma upper_lang_tags:
  "toUpperCase ''Python'' = ''PYTHON''"
  "toUpperCase ''Go'' = ''GO''"
  "toUpperCase ''Rust'' = ''RUST''"
  by code_simp+

section \<open>The claims\<close>

subsection \<open>Selecting a node\<close>

text \<open>
  C1, as stated, ends with: two consecutive clicks on the same node, starting from any
  state, leave \<^verbatim>\<open>active\<close> at \<^verbatim>\<open>null\<close>. The state reached from the initial one by one click
  on \<^verbatim>\<open>parser\<close> refutes it: two further clicks on \<^verbatim>\<open>parser\<close> first clear the selection
  and then select \<^verbatim>\<open>parser\<close> again.
\<close>

theorem selectNode_twice_counterexample:
  "selectNode initial_state ''parser'' = \<lparr> active = Some ''parser'', hoveredLayer = None \<rparr> \<and>
   active (selectNode (selectNode \<lparr> active = Some ''parser'', hoveredLayer = None \<rparr> ''parser'')
     ''parser'') = Some ''parser'' \<and>
   active (selectNode (selectNode \<lparr> active = Some ''parser'', hoveredLayer = None \<rparr> ''parser'')
     ''parser'') \<noteq> None"
  by (simp add: selectNode_def initial_state_def)

text \<open>
  C1 (amended): for every node id \<open>n\<close>, the click handler of \<open>n\<close> sets \<^verbatim>\<open>active\<close> to \<open>n\<close>
  when \<open>n\<close> is not the selected node, and to \<^verbatim>\<open>null\<close> when it is; consequently two
  consecutive clicks on \<open>n\<close>, starting from any state in which \<open>n\<close> is not selected, leave
  \<^verbatim>\<open>active\<close> at \<^verbatim>\<open>null\<close>. The last conjunct says that \<open>selectNode\<close> is what the button of
  the \<open>j\<close>-th node of the \<open>i\<close>-th layer does when it is clicked in the tree rendered from
  the current state.
\<close>

theorem selectNode_toggle:
  "(active st \<noteq> Some n \<longrightarrow> active (selectNode st n) = Some n) \<and>
   (active st = Some n \<longrightarrow> active (selectNode st n) = None) \<and>
   (active st \<noteq> Some n \<longrightarrow> active (selectNode (selectNode st n) n) = None) \<and>
   (i < length LAYERS \<and> j < length (l_nodes (LAYERS ! i)) \<longrightarrow>
      (\<exists>v. ArchDiagram st = Inr v \<and>
           dispatch (nv_onClick (lv_nodes (v_layers v ! i) ! j)) st =
             selectNode st (n_id (l_nodes (LAYERS ! i) ! j))))"
proof -
  have "\<exists>v. ArchDiagram st = Inr v \<and>
           dispatch (nv_onClick (lv_nodes (v_layers v ! i) ! j)) st =
             selectNode st (n_id (l_nodes (LAYERS ! i) ! j))"
    if i: "i < length LAYERS" and j: "j < length (l_nodes (LAYERS ! i))"
  proof -
    obtain v where v: "ArchDiagram st = Inr v" using ArchDiagram_Inr by blast
    let ?nv = "lv_nodes (v_layers v ! i) ! j"
    have "v_layers v ! i \<in> set (v_layers v)"
      using i ArchDiagram_length [OF v] by simp
    moreover have "?nv \<in> set (lv_nodes (v_layers v ! i))"
      using j layer_length_nodes [OF v i] by simp
    ultimately have "dispatch (nv_onClick ?nv) st = selectNode st (nv_key ?nv)"
      by (rule click_is_selectNode [OF v])
    with renderNode_fields(1) [OF ArchDiagram_node_nth [OF v i j]] v show ?thesis by simp
  qed
  then show ?thesis by (simp add: selectNode_def)
qed

theorem selectNode_toggle_witness:
  "active (selectNode initial_state ''parser'') = Some ''parser'' \<and>
   active (selectNode (selectNode initial_state ''parser'') ''parser'') = None \<and>
   active (selectNode \<lparr> active = Some ''parser'', hoveredLayer = None \<rparr> ''parser'') = None \<and>
   (\<exists>v. ArchDiagram initial_state = Inr v \<and>
        dispatch (nv_onClick (lv_nodes (v_layers v ! 1) ! 1)) initial_state =
          selectNode initial_state ''parser'')"
proof -
  have a: "active initial_state \<noteq> Some ''parser''" by (simp add: initial_state_def)
  have b: "active \<lparr> active = Some ''parser'', hoveredLayer = None \<rparr> = Some ''parser''" by simp
  have c: "1 < length LAYERS \<and> 1 < length (l_nodes (LAYERS ! 1))"
    by (simp add: LAYERS_length parser_position del: One_nat_def)
  from selectNode_toggle [of initial_state "''parser''" 1 1] a c
    selectNode_toggle [of "\<lparr> active = Some ''parser'', hoveredLayer = None \<rparr>" "''parser''" 1 1] b
  show ?thesis by (simp add: parser_position del: One_nat_def)
qed

text \<open>
  C2: for distinct node ids \<open>N1\<close> and \<open>N2\<close>, clicking \<open>N1\<close> and then \<open>N2\<close> leaves \<open>N2\<close>
  selected and \<open>N1\<close> not selected, whatever the state before; and in every reachable state
  at most one node of the flattened node sequence has \<^verbatim>\<open>isActive\<close> true.
\<close>

theorem selection_exclusive:
  "(N1 \<noteq> N2 \<longrightarrow>
      active (selectNode (selectNode st N1) N2) = Some N2 \<and>
      active (selectNode (selectNode st N1) N2) \<noteq> Some N1) \<and>
   (reachable st \<longrightarrow> length (filter (isActiveNode (active st)) allNodes) \<le> 1)"
  using at_most_one_active [of "active st"] by (auto simp: selectNode_def)

theorem selection_exclusive_witness:
  "active (selectNode (selectNode initial_state ''parser'') ''queue'') = Some ''queue'' \<and>
   active (selectNode (selectNode initial_state ''parser'') ''queue'') \<noteq> Some ''parser'' \<and>
   reachable (selectNode initial_state ''parser'') \<and>
   length (filter (isActiveNode (active (selectNode initial_state ''parser''))) allNodes) \<le> 1"
proof -
  have d: "''parser'' \<noteq> ''queue''" by simp
  have r: "reachable (selectNode initial_state ''parser'')"
    using reachable_selectNode [OF r_init parser_node(2)] by (simp add: parser_node(1))
  from selection_exclusive [of "''parser''" "''queue''" initial_state] d
    selection_exclusive [of "''parser''" "''queue''" "selectNode initial_state ''parser''"] r
  show ?thesis by simp
qed

text \<open>
  C10: the two state fields are independent. A click on a node leaves \<^verbatim>\<open>hoveredLayer\<close> as
  it was, and \<^verbatim>\<open>setHoveredLayer\<close> leaves \<^verbatim>\<open>active\<close> as it was.
\<close>

theorem state_fields_independent:
  "hoveredLayer (selectNode st i) = hoveredLayer st \<and> active (hoverLayer st v) = active st"
  by (simp add: selectNode_def hoverLayer_def)

subsection \<open>Hovering a layer\<close>

text \<open>
  C5: \<^verbatim>\<open>setHoveredLayer\<close> stores its argument, with no toggle. Entering a layer sets
  \<^verbatim>\<open>hoveredLayer\<close> to the id of that layer, also when that layer is the hovered one
  already; leaving sets it to \<^verbatim>\<open>null\<close> whatever it was. The last conjunct says that these
  are the \<^verbatim>\<open>onMouseEnter\<close> and \<^verbatim>\<open>onMouseLeave\<close> handlers of the \<open>i\<close>-th layer box, in the
  tree rendered from any state \<open>st0\<close> and run in any state \<open>st\<close>.
\<close>

theorem hoverLayer_sets_directly:
  "hoveredLayer (hoverLayer st (Some l)) = Some l \<and>
   hoveredLayer (hoverLayer (hoverLayer st (Some l)) (Some l)) = Some l \<and>
   hoveredLayer (hoverLayer st None) = None \<and>
   (i < length LAYERS \<longrightarrow>
      (\<exists>v. ArchDiagram st0 = Inr v \<and>
           dispatch (lv_onMouseEnter (v_layers v ! i)) st = hoverLayer st (Some (l_id (LAYERS ! i))) \<and>
           dispatch (lv_onMouseLeave (v_layers v ! i)) st = hoverLayer st None))"
proof -
  have "\<exists>v. ArchDiagram st0 = Inr v \<and>
           dispatch (lv_onMouseEnter (v_layers v ! i)) st = hoverLayer st (Some (l_id (LAYERS ! i))) \<and>
           dispatch (lv_onMouseLeave (v_layers v ! i)) st = hoverLayer st None"
    if i: "i < length LAYERS"
  proof -
    obtain v where v: "ArchDiagram st0 = Inr v" using ArchDiagram_Inr by blast
    note r = ArchDiagram_layer_nth [OF v i]
    from renderLayer_fields(2,3) [OF r] v show ?thesis by (simp add: hoverLayer_def)
  qed
  then show ?thesis by (simp add: hoverLayer_def)
qed

theorem hoverLayer_sets_directly_witness:
  "\<exists>v. ArchDiagram initial_state = Inr v \<and>
       hoveredLayer (dispatch (lv_onMouseEnter (v_layers v ! 1))
         \<lparr> active = None, hoveredLayer = Some ''sink'' \<rparr>) = Some ''ingest'' \<and>
       hoveredLayer (dispatch (lv_onMouseLeave (v_layers v ! 1))
         \<lparr> active = None, hoveredLayer = Some ''sink'' \<rparr>) = None"
proof -
  have i: "1 < length LAYERS" by (simp add: LAYERS_length)
  from hoverLayer_sets_directly
    [of "\<lparr> active = None, hoveredLayer = Some ''sink'' \<rparr>" "''ingest''" 1 initial_state] i
  show ?thesis by (auto simp: parser_position(4) hoverLayer_def simp del: One_nat_def)
qed

subsection \<open>The static data and the lookup of the active node\<close>

text \<open>
  C4: the lookup of the active node scans the nodes of all layers, layer after layer in
  the order \<^verbatim>\<open>LAYERS\<close> lists them and within a layer in the order its \<^verbatim>\<open>nodes\<close> array lists
  them, and returns the first node whose id is \<^verbatim>\<open>active\<close>; it returns nothing when
  \<^verbatim>\<open>active\<close> is \<^verbatim>\<open>null\<close> or is the id of no node.
\<close>

theorem lookupActiveNode_first_match:
  "allNodes = concat (map l_nodes LAYERS) \<and>
   map n_id allNodes =
     [''syslog'', ''cloudtrail'', ''webhook'', ''goagent'', ''queue'',
      ''parser'', ''normalizer'', ''registry'', ''filesink'', ''monitor''] \<and>
   activeNode None = None \<and>
   ((\<forall>n\<in>set allNodes. n_id n \<noteq> i) \<longrightarrow> activeNode (Some i) = None) \<and>
   (activeNode (Some i) = Some n \<longleftrightarrow>
      (\<exists>k<length allNodes. allNodes ! k = n \<and> n_id n = i \<and>
         (\<forall>j<k. n_id (allNodes ! j) \<noteq> i)))"
proof -
  have "activeNode None = None"
    by (simp add: activeNode_def find_None_iff)
  moreover have "activeNode (Some i) = None" if "\<forall>n\<in>set allNodes. n_id n \<noteq> i"
    using that by (auto simp: activeNode_def find_None_iff)
  moreover have "activeNode (Some i) = Some n \<longleftrightarrow>
      (\<exists>k<length allNodes. allNodes ! k = n \<and> n_id n = i \<and>
         (\<forall>j<k. n_id (allNodes ! j) \<noteq> i))"
    by (auto simp: activeNode_def find_Some_iff)
  ultimately show ?thesis
    using allNodes_ids by (simp add: allNodes_def flatMap_def)
qed

theorem lookupActiveNode_first_match_witness:
  "activeNode (Some ''parser'') = Some (allNodes ! 5) \<and> activeNode (Some ''kafka'') = None"
proof -
  have none: "\<forall>n\<in>set allNodes. n_id n \<noteq> ''kafka''"
  proof
    fix n assume "n \<in> set allNodes"
    then have "n_id n \<in> set (map n_id allNodes)" by simp
    then show "n_id n \<noteq> ''kafka''" unfolding allNodes_ids by auto
  qed
  have len: "length allNodes = 10"
    using arg_cong [OF allNodes_ids, of length] by simp
  have k: "5 < length allNodes \<and> allNodes ! 5 = allNodes ! 5 \<and> n_id (allNodes ! 5) = ''parser'' \<and>
      (\<forall>j<5. n_id (allNodes ! j) \<noteq> ''parser'')"
  proof -
    have "\<forall>j<5. map n_id allNodes ! j \<noteq> ''parser''"
      unfolding allNodes_ids by (simp add: eval_nat_numeral All_less_Suc)
    then have "\<forall>j<5. n_id (allNodes ! j) \<noteq> ''parser''"
      using len by simp
    then show ?thesis using len by (simp add: parser_node(1))
  qed
  from lookupActiveNode_first_match [of "''kafka''" "allNodes ! 5"] none
    lookupActiveNode_first_match [of "''parser''" "allNodes ! 5"] k
  show ?thesis by blast
qed

text \<open>
  C7: no two nodes of the flattened node sequence have the same id, so the lookup by id
  of any node of the static data returns that very node.
\<close>

theorem node_ids_unique:
  "distinct (map n_id allNodes) \<and>
   (\<forall>n\<in>set allNodes. \<forall>m\<in>set allNodes. n_id n = n_id m \<longrightarrow> n = m) \<and>
   (\<forall>n\<in>set allNodes. activeNode (Some (n_id n)) = Some n)"
proof -
  have "n = m" if "n \<in> set allNodes" "m \<in> set allNodes" "n_id n = n_id m" for n m
    using that distinct_ids by (meson distinct_map inj_onD)
  then show ?thesis using distinct_ids activeNode_unique by blast
qed

theorem node_ids_unique_witness:
  "allNodes ! 5 \<in> set allNodes \<and> n_id (allNodes ! 5) = ''parser'' \<and>
   activeNode (Some ''parser'') = Some (allNodes ! 5)"
  using node_ids_unique parser_node(2) by (auto simp: parser_node(1))

text \<open>
  C6: the language tag of every node of the static data is a key of \<^verbatim>\<open>LANG_COLORS\<close>;
  hence no style lookup of a render reads a property of \<^verbatim>\<open>undefined\<close>: in every state the
  component returns a tree.
\<close>

theorem every_language_has_style:
  "(\<forall>n\<in>set allNodes. \<exists>lc. LANG_COLORS (n_lang n) = Some lc) \<and> (\<exists>v. ArchDiagram st = Inr v)"
  using langs_styled ArchDiagram_Inr by blast

theorem every_language_has_style_witness:
  "allNodes ! 5 \<in> set allNodes \<and>
   LANG_COLORS (n_lang (allNodes ! 5)) =
     Some \<lparr> lc_bg = ''#2a1a1a'', lc_border = ''#ff6b35'', lc_text = ''#ff6b35'' \<rparr> \<and>
   (\<exists>v. ArchDiagram initial_state = Inr v)"
proof -
  from every_language_has_style [of initial_state] parser_node(2)
  have "\<exists>lc. LANG_COLORS (n_lang (allNodes ! 5)) = Some lc" and "\<exists>v. ArchDiagram initial_state = Inr v"
    by blast+
  then show ?thesis
    using parser_node(2) by (simp add: parser_node(1) LANG_COLORS_def LANG_COLORS_entries_def)
qed

subsection \<open>The rendered tree\<close>

text \<open>
  C3: the detail panel depends on \<^verbatim>\<open>active\<close> only: two states with the same \<^verbatim>\<open>active\<close>
  render the same panel. With \<^verbatim>\<open>active\<close> \<^verbatim>\<open>null\<close> the panel is the placeholder prompt; with
  \<^verbatim>\<open>active\<close> the id of a node \<open>n\<close> the panel consists of the label of \<open>n\<close>, a badge with
  the upper-cased language tag of \<open>n\<close> in the colours of that language, and the description
  of \<open>n\<close>. In a reachable state these are the only two cases: \<^verbatim>\<open>active\<close> is \<^verbatim>\<open>null\<close> or the
  id of a node.
\<close>

theorem detail_panel_content:
  "(active st = active st' \<longrightarrow>
      (\<exists>v v'. ArchDiagram st = Inr v \<and> ArchDiagram st' = Inr v' \<and> v_detail v = v_detail v')) \<and>
   (active st = None \<longrightarrow>
      (\<exists>v. ArchDiagram st = Inr v \<and>
           v_detail v = Placeholder (small_triangle @ '' SELECT A NODE TO INSPECT''))) \<and>
   (n \<in> set allNodes \<and> active st = Some (n_id n) \<longrightarrow>
      (\<exists>v lc. ArchDiagram st = Inr v \<and> LANG_COLORS (n_lang n) = Some lc \<and>
           v_detail v =
             NodeDetail (n_label n)
               \<lparr> bd_color = lc_text lc, bd_background = lc_bg lc,
                 bd_border = ''1px solid '' @ lc_border lc @ ''50'',
                 bd_text = toUpperCase (n_lang n) \<rparr>
               (n_desc n))) \<and>
   (reachable st \<longrightarrow> active st = None \<or> (\<exists>m\<in>set allNodes. active st = Some (n_id m)))"
proof -
  obtain v where v: "ArchDiagram st = Inr v" using ArchDiagram_Inr by blast
  note d = ArchDiagram_fields(2) [OF v]
  have pure: "\<exists>v v'. ArchDiagram st = Inr v \<and> ArchDiagram st' = Inr v' \<and> v_detail v = v_detail v'"
    if same: "active st = active st'"
  proof -
    obtain v' where v': "ArchDiagram st' = Inr v'" using ArchDiagram_Inr by blast
    from ArchDiagram_fields(2) [OF v'] d same have "v_detail v = v_detail v'" by simp
    with v v' show ?thesis by blast
  qed
  have placeholder: "\<exists>v. ArchDiagram st = Inr v \<and>
      v_detail v = Placeholder (small_triangle @ '' SELECT A NODE TO INSPECT'')"
    if none: "active st = None"
  proof -
    from d none have "v_detail v = Placeholder (small_triangle @ '' SELECT A NODE TO INSPECT'')"
      by (simp add: activeNode_None detailPanel_def)
    with v show ?thesis by blast
  qed
  have selected: "\<exists>v lc. ArchDiagram st = Inr v \<and> LANG_COLORS (n_lang n) = Some lc \<and>
      v_detail v =
        NodeDetail (n_label n)
          \<lparr> bd_color = lc_text lc, bd_background = lc_bg lc,
            bd_border = ''1px solid '' @ lc_border lc @ ''50'',
            bd_text = toUpperCase (n_lang n) \<rparr>
          (n_desc n)"
    if n: "n \<in> set allNodes" and sel: "active st = Some (n_id n)"
  proof -
    from langs_styled [OF n] obtain lc where lc: "LANG_COLORS (n_lang n) = Some lc" by blast
    from d sel activeNode_unique [OF n] lc
    have "v_detail v =
        NodeDetail (n_label n)
          \<lparr> bd_color = lc_text lc, bd_background = lc_bg lc,
            bd_border = ''1px solid '' @ lc_border lc @ ''50'',
            bd_text = toUpperCase (n_lang n) \<rparr>
          (n_desc n)"
      by (simp add: detailPanel_def)
    with v lc show ?thesis by blast
  qed
  from pure placeholder selected reachable_active [of st] show ?thesis by blast
qed

theorem detail_panel_content_witness:
  "(\<exists>v v'. ArchDiagram initial_state = Inr v \<and>
       ArchDiagram \<lparr> active = None, hoveredLayer = Some ''ingest'' \<rparr> = Inr v' \<and>
       v_detail v = v_detail v' \<and>
       v_detail v = Placeholder (small_triangle @ '' SELECT A NODE TO INSPECT'')) \<and>
   (\<exists>v. ArchDiagram \<lparr> active = Some ''parser'', hoveredLayer = None \<rparr> = Inr v \<and>
       v_detail v =
         NodeDetail ''Rust Log Parser''
           \<lparr> bd_color = ''#ff6b35'', bd_background = ''#2a1a1a'',
             bd_border = ''1px solid #ff6b3550'', bd_text = ''RUST'' \<rparr>
           ''Parses CEF, LEEF, JSON, syslog at wire rate. Memory-safe handling of untrusted input. Emits structured records.'') \<and>
   reachable (selectNode initial_state ''parser'') \<and>
   active (selectNode initial_state ''parser'') = Some (n_id (allNodes ! 5))"
proof -
  let ?hov = "\<lparr> active = None, hoveredLayer = Some ''ingest'' \<rparr>"
  let ?sel = "\<lparr> active = Some ''parser'', hoveredLayer = None \<rparr>"
  have same: "active initial_state = active ?hov" and none: "active initial_state = None"
    by (simp_all add: initial_state_def)
  have sel: "allNodes ! 5 \<in> set allNodes \<and> active ?sel = Some (n_id (allNodes ! 5))"
    using parser_node(2) by (simp add: parser_node(1))
  from detail_panel_content [of initial_state ?hov "allNodes ! 5"] same none
  have first: "\<exists>v v'. ArchDiagram initial_state = Inr v \<and> ArchDiagram ?hov = Inr v' \<and>
       v_detail v = v_detail v' \<and>
       v_detail v = Placeholder (small_triangle @ '' SELECT A NODE TO INSPECT'')"
    by auto
  from detail_panel_content [of ?sel ?sel "allNodes ! 5"] sel
  obtain v lc where "ArchDiagram ?sel = Inr v" and "LANG_COLORS (n_lang (allNodes ! 5)) = Some lc"
    and "v_detail v =
           NodeDetail (n_label (allNodes ! 5))
             \<lparr> bd_color = lc_text lc, bd_background = lc_bg lc,
               bd_border = ''1px solid '' @ lc_border lc @ ''50'',
               bd_text = toUpperCase (n_lang (allNodes ! 5)) \<rparr>
             (n_desc (allNodes ! 5))"
    by blast
  then have "\<exists>v. ArchDiagram ?sel = Inr v \<and>
       v_detail v =
         NodeDetail ''Rust Log Parser''
           \<lparr> bd_color = ''#ff6b35'', bd_background = ''#2a1a1a'',
             bd_border = ''1px solid #ff6b3550'', bd_text = ''RUST'' \<rparr>
           ''Parses CEF, LEEF, JSON, syslog at wire rate. Memory-safe handling of untrusted input. Emits structured records.''"
    by (auto simp: parser_node(1) upper_lang_tags LANG_COLORS_def LANG_COLORS_entries_def)
  moreover have r: "reachable (selectNode initial_state ''parser'')"
    using reachable_selectNode [OF r_init parser_node(2)] by (simp add: parser_node(1))
  moreover have "active (selectNode initial_state ''parser'') = Some (n_id (allNodes ! 5))"
  proof -
    have "active (selectNode initial_state ''parser'') \<noteq> None"
      by (simp add: selectNode_def initial_state_def)
    with detail_panel_content [of "selectNode initial_state ''parser''" initial_state "allNodes ! 5"] r
    obtain m where "m \<in> set allNodes"
      and m: "active (selectNode initial_state ''parser'') = Some (n_id m)"
      by blast
    then show ?thesis by (simp add: selectNode_def initial_state_def parser_node(1))
  qed
  ultimately show ?thesis using first by blast
qed

text \<open>
  C8: after a click on \<^verbatim>\<open>parser\<close> in the initial state, the detail panel shows the label
  \<^verbatim>\<open>Rust Log Parser\<close>, the badge \<^verbatim>\<open>RUST\<close> and the description of the parser node, and the
  button of \<^verbatim>\<open>parser\<close> (the second node of the second layer) has the emphasized styling.
\<close>

theorem click_parser_scenario:
  "\<exists>v. ArchDiagram (selectNode initial_state ''parser'') = Inr v \<and>
       v_detail v =
         NodeDetail ''Rust Log Parser''
           \<lparr> bd_color = ''#ff6b35'', bd_background = ''#2a1a1a'',
             bd_border = ''1px solid #ff6b3550'', bd_text = ''RUST'' \<rparr>
           ''Parses CEF, LEEF, JSON, syslog at wire rate. Memory-safe handling of untrusted input. Emits structured records.'' \<and>
       nv_key (lv_nodes (v_layers v ! 1) ! 1) = ''parser'' \<and>
       emphasizedNode (LAYERS ! 1) (lv_nodes (v_layers v ! 1) ! 1) \<and>
       nv_background (lv_nodes (v_layers v ! 1) ! 1) = ''#00cfff15'' \<and>
       nv_border (lv_nodes (v_layers v ! 1) ! 1) = ''1px solid #00cfff'' \<and>
       nv_boxShadow (lv_nodes (v_layers v ! 1) ! 1) = ''0 0 20px #00cfff20''"
proof -
  let ?st = "selectNode initial_state ''parser''"
  have act: "active ?st = Some ''parser''"
    by (simp add: selectNode_def initial_state_def)
  obtain v where v: "ArchDiagram ?st = Inr v" using ArchDiagram_Inr by blast
  let ?nv = "lv_nodes (v_layers v ! 1) ! 1"
  have an: "activeNode (Some ''parser'') = Some (allNodes ! 5)"
    using activeNode_unique [OF parser_node(2)] by (simp add: parser_node(1))
  have lc: "LANG_COLORS ''Rust'' =
      Some \<lparr> lc_bg = ''#2a1a1a'', lc_border = ''#ff6b35'', lc_text = ''#ff6b35'' \<rparr>"
    by (simp add: LANG_COLORS_def LANG_COLORS_entries_def)
  have detail: "v_detail v =
         NodeDetail ''Rust Log Parser''
           \<lparr> bd_color = ''#ff6b35'', bd_background = ''#2a1a1a'',
             bd_border = ''1px solid #ff6b3550'', bd_text = ''RUST'' \<rparr>
           ''Parses CEF, LEEF, JSON, syslog at wire rate. Memory-safe handling of untrusted input. Emits structured records.''"
    using ArchDiagram_fields(2) [OF v]
    by (simp add: act an detailPanel_def parser_node(1) lc upper_lang_tags)
  have i: "1 < length LAYERS" by (simp add: LAYERS_length)
  have j: "1 < length (l_nodes (LAYERS ! 1))" by (simp add: parser_position(1) del: One_nat_def)
  note r = ArchDiagram_node_nth [OF v i j]
  have sel: "active ?st = Some (n_id (l_nodes (LAYERS ! 1) ! 1))"
    by (simp add: act parser_position(2) del: One_nat_def)
  have key: "nv_key ?nv = ''parser''"
    using renderNode_fields(1) [OF r] by (simp add: parser_position(2) del: One_nat_def)
  have emph: "emphasizedNode (LAYERS ! 1) ?nv"
    using renderNode_emphasized [OF r] sel by simp
  from renderNode_active(2-4) [OF r sel]
  have style: "nv_background ?nv = ''#00cfff15''" "nv_border ?nv = ''1px solid #00cfff''"
    "nv_boxShadow ?nv = ''0 0 20px #00cfff20''"
    by (simp_all add: parser_position(3) del: One_nat_def)
  from v detail key emph style show ?thesis by blast
qed

text \<open>
  C9: in the tree rendered from any state, the layer boxes are the layers of \<^verbatim>\<open>LAYERS\<close> in
  their order, each with the buttons of its nodes in their order; a layer box is followed by
  an arrow exactly when it is not the last one; a layer box has the emphasized styling
  exactly when its id is \<^verbatim>\<open>hoveredLayer\<close> and the plain one otherwise; a node button has
  the emphasized styling exactly when its id is \<^verbatim>\<open>active\<close> and the plain one otherwise.
\<close>

theorem visual_contract:
  "\<exists>v. ArchDiagram st = Inr v \<and>
       map lv_key (v_layers v) = map l_id LAYERS \<and>
       (\<forall>i<length LAYERS.
          (emphasizedLayer (LAYERS ! i) (v_layers v ! i) \<longleftrightarrow>
             hoveredLayer st = Some (l_id (LAYERS ! i))) \<and>
          (plainLayer (v_layers v ! i) \<longleftrightarrow> hoveredLayer st \<noteq> Some (l_id (LAYERS ! i))) \<and>
          (lv_arrow (v_layers v ! i) \<longleftrightarrow> i + 1 < length LAYERS) \<and>
          map nv_key (lv_nodes (v_layers v ! i)) = map n_id (l_nodes (LAYERS ! i)) \<and>
          (\<forall>j<length (l_nodes (LAYERS ! i)).
             (emphasizedNode (LAYERS ! i) (lv_nodes (v_layers v ! i) ! j) \<longleftrightarrow>
                active st = Some (n_id (l_nodes (LAYERS ! i) ! j))) \<and>
             (plainNode (lv_nodes (v_layers v ! i) ! j) \<longleftrightarrow>
                active st \<noteq> Some (n_id (l_nodes (LAYERS ! i) ! j)))))"
proof -
  obtain v where v: "ArchDiagram st = Inr v" using ArchDiagram_Inr by blast
  note len = ArchDiagram_length [OF v]
  have keys: "map lv_key (v_layers v) = map l_id LAYERS"
  proof (rule nth_equalityI)
    show "length (map lv_key (v_layers v)) = length (map l_id LAYERS)" using len by simp
  next
    fix i assume "i < length (map lv_key (v_layers v))"
    then have i: "i < length LAYERS" using len by simp
    from renderLayer_fields(1) [OF ArchDiagram_layer_nth [OF v i]] i len
    show "map lv_key (v_layers v) ! i = map l_id LAYERS ! i" by simp
  qed
  have layer: "(emphasizedLayer (LAYERS ! i) (v_layers v ! i) \<longleftrightarrow>
             hoveredLayer st = Some (l_id (LAYERS ! i))) \<and>
          (plainLayer (v_layers v ! i) \<longleftrightarrow> hoveredLayer st \<noteq> Some (l_id (LAYERS ! i))) \<and>
          (lv_arrow (v_layers v ! i) \<longleftrightarrow> i + 1 < length LAYERS) \<and>
          map nv_key (lv_nodes (v_layers v ! i)) = map n_id (l_nodes (LAYERS ! i)) \<and>
          (\<forall>j<length (l_nodes (LAYERS ! i)).
             (emphasizedNode (LAYERS ! i) (lv_nodes (v_layers v ! i) ! j) \<longleftrightarrow>
                active st = Some (n_id (l_nodes (LAYERS ! i) ! j))) \<and>
             (plainNode (lv_nodes (v_layers v ! i) ! j) \<longleftrightarrow>
                active st \<noteq> Some (n_id (l_nodes (LAYERS ! i) ! j))))"
    if i: "i < length LAYERS" for i
  proof -
    note r = ArchDiagram_layer_nth [OF v i]
    note nlen = layer_length_nodes [OF v i]
    have arrow: "lv_arrow (v_layers v ! i) \<longleftrightarrow> i + 1 < length LAYERS"
      using renderLayer_fields(5) [OF r] by auto
    have nkeys: "map nv_key (lv_nodes (v_layers v ! i)) = map n_id (l_nodes (LAYERS ! i))"
    proof (rule nth_equalityI)
      show "length (map nv_key (lv_nodes (v_layers v ! i))) = length (map n_id (l_nodes (LAYERS ! i)))"
        using nlen by simp
    next
      fix j assume "j < length (map nv_key (lv_nodes (v_layers v ! i)))"
      then have j: "j < length (l_nodes (LAYERS ! i))" using nlen by simp
      from renderNode_fields(1) [OF ArchDiagram_node_nth [OF v i j]] j nlen
      show "map nv_key (lv_nodes (v_layers v ! i)) ! j = map n_id (l_nodes (LAYERS ! i)) ! j"
        by simp
    qed
    have nodes: "(emphasizedNode (LAYERS ! i) (lv_nodes (v_layers v ! i) ! j) \<longleftrightarrow>
                active st = Some (n_id (l_nodes (LAYERS ! i) ! j))) \<and>
             (plainNode (lv_nodes (v_layers v ! i) ! j) \<longleftrightarrow>
                active st \<noteq> Some (n_id (l_nodes (LAYERS ! i) ! j)))"
      if j: "j < length (l_nodes (LAYERS ! i))" for j
      using renderNode_emphasized [OF ArchDiagram_node_nth [OF v i j]]
        renderNode_plain [OF ArchDiagram_node_nth [OF v i j]] by simp
    from renderLayer_emphasized [OF r] renderLayer_plain [OF r] arrow nkeys nodes
    show ?thesis by simp
  qed
  from v keys layer show ?thesis by blast
qed

theorem visual_contract_witness:
  "\<exists>v. ArchDiagram \<lparr> active = Some ''parser'', hoveredLayer = Some ''ingest'' \<rparr> = Inr v \<and>
       map lv_key (v_layers v) = [''sources'', ''ingest'', ''validation'', ''sink''] \<and>
       emphasizedLayer (LAYERS ! 1) (v_layers v ! 1) \<and>
       \<not> emphasizedLayer (LAYERS ! 3) (v_layers v ! 3) \<and> plainLayer (v_layers v ! 3) \<and>
       lv_arrow (v_layers v ! 1) \<and> \<not> lv_arrow (v_layers v ! 3) \<and>
       emphasizedNode (LAYERS ! 1) (lv_nodes (v_layers v ! 1) ! 1) \<and>
       \<not> emphasizedNode (LAYERS ! 1) (lv_nodes (v_layers v ! 1) ! 0) \<and>
       plainNode (lv_nodes (v_layers v ! 1) ! 0)"
proof -
  let ?st = "\<lparr> active = Some ''parser'', hoveredLayer = Some ''ingest'' \<rparr>"
  from visual_contract [of ?st] obtain v where v: "ArchDiagram ?st = Inr v"
    and keys: "map lv_key (v_layers v) = map l_id LAYERS"
    and layers: "\<forall>i<length LAYERS.
          (emphasizedLayer (LAYERS ! i) (v_layers v ! i) \<longleftrightarrow>
             hoveredLayer ?st = Some (l_id (LAYERS ! i))) \<and>
          (plainLayer (v_layers v ! i) \<longleftrightarrow> hoveredLayer ?st \<noteq> Some (l_id (LAYERS ! i))) \<and>
          (lv_arrow (v_layers v ! i) \<longleftrightarrow> i + 1 < length LAYERS) \<and>
          map nv_key (lv_nodes (v_layers v ! i)) = map n_id (l_nodes (LAYERS ! i)) \<and>
          (\<forall>j<length (l_nodes (LAYERS ! i)).
             (emphasizedNode (LAYERS ! i) (lv_nodes (v_layers v ! i) ! j) \<longleftrightarrow>
                active ?st = Some (n_id (l_nodes (LAYERS ! i) ! j))) \<and>
             (plainNode (lv_nodes (v_layers v ! i) ! j) \<longleftrightarrow>
                active ?st \<noteq> Some (n_id (l_nodes (LAYERS ! i) ! j))))"
    by blast
  have ids: "map l_id LAYERS = [''sources'', ''ingest'', ''validation'', ''sink'']"
    by (simp add: LAYERS_def)
  have l3: "l_id (LAYERS ! 3) = ''sink''" by (simp add: LAYERS_def)
  have n0: "n_id (l_nodes (LAYERS ! 1) ! 0) = ''queue''" by (simp add: LAYERS_def)
  have i1: "1 < length LAYERS" and i3: "3 < length LAYERS" by (simp_all add: LAYERS_length)
  have j0: "0 < length (l_nodes (LAYERS ! 1))" and j1: "1 < length (l_nodes (LAYERS ! 1))"
    by (simp_all add: parser_position(1) del: One_nat_def)
  from layers i1 have one:
    "emphasizedLayer (LAYERS ! 1) (v_layers v ! 1)" "lv_arrow (v_layers v ! 1)"
    and nodes: "\<forall>j<length (l_nodes (LAYERS ! 1)).
             (emphasizedNode (LAYERS ! 1) (lv_nodes (v_layers v ! 1) ! j) \<longleftrightarrow>
                active ?st = Some (n_id (l_nodes (LAYERS ! 1) ! j))) \<and>
             (plainNode (lv_nodes (v_layers v ! 1) ! j) \<longleftrightarrow>
                active ?st \<noteq> Some (n_id (l_nodes (LAYERS ! 1) ! j)))"
    by (simp_all add: parser_position(4) LAYERS_length del: One_nat_def)
  from layers i3 have three:
    "\<not> emphasizedLayer (LAYERS ! 3) (v_layers v ! 3)" "plainLayer (v_layers v ! 3)"
    "\<not> lv_arrow (v_layers v ! 3)"
    by (simp_all add: l3 LAYERS_length)
  from nodes j1 have p: "emphasizedNode (LAYERS ! 1) (lv_nodes (v_layers v ! 1) ! 1)"
    by (simp add: parser_position(2) del: One_nat_def)
  from nodes j0 have q: "\<not> emphasizedNode (LAYERS ! 1) (lv_nodes (v_layers v ! 1) ! 0)"
    "plainNode (lv_nodes (v_layers v ! 1) ! 0)"
    by (simp_all add: n0 del: One_nat_def)
  from v keys ids one three p q show ?thesis by simp
qed

end
